theory Spec2Isabelle
  imports Complex_Main
begin

section \<open>JavaScript values as the server sees them\<close>

text \<open>
  The server (\<^verbatim>\<open>lib/sth_server.js\<close>) receives parsed JSON payloads and tests them with
  JavaScript truthiness, \<^verbatim>\<open>typeof\<close>, \<^verbatim>\<open>Array.isArray\<close> and property reads. A number is
  a double: what the code looks at is whether it is zero or NaN, so a finite number is
  kept as a real and the three non-finite doubles are constructors of their own
  (\<open>-0\<close> is \<open>Num 0\<close>). A string is a list of characters, each read as one code unit
  in the range 0..255.
\<close>

datatype jsnum = Num real | NaN | Infinity | NegInfinity

datatype jsval =
    JUndefined
  | JNull
  | JBool bool
  | JNumber jsnum
  | JString string
  | JArray "jsval list"
  | JObject "(string \<times> jsval) list"

datatype jstype = TUndefined | TObject | TBoolean | TNumber | TString

datatype js_error = TypeError

text \<open>Truthiness: \<^verbatim>\<open>undefined\<close>, \<^verbatim>\<open>null\<close>, \<^verbatim>\<open>false\<close>, \<^verbatim>\<open>0\<close>, \<^verbatim>\<open>NaN\<close> and \<^verbatim>\<open>''\<close> are falsy.\<close>

fun truthy :: "jsval \<Rightarrow> bool" where
  "truthy JUndefined = False"
| "truthy JNull = False"
| "truthy (JBool b) = b"
| "truthy (JNumber n) = (n \<noteq> Num 0 \<and> n \<noteq> NaN)"
| "truthy (JString s) = (s \<noteq> [])"
| "truthy (JArray xs) = True"
| "truthy (JObject kvs) = True"

fun typeof :: "jsval \<Rightarrow> jstype" where
  "typeof JUndefined = TUndefined"
| "typeof JNull = TObject"
| "typeof (JBool b) = TBoolean"
| "typeof (JNumber n) = TNumber"
| "typeof (JString s) = TString"
| "typeof (JArray xs) = TObject"
| "typeof (JObject kvs) = TObject"

text \<open>
  Reading a property: on \<^verbatim>\<open>undefined\<close> and \<^verbatim>\<open>null\<close> the read throws a TypeError; on an
  object it gives the member or \<^verbatim>\<open>undefined\<close>; on any other value the names the server
  reads (\<^verbatim>\<open>contextResponses\<close>, \<^verbatim>\<open>contextElement\<close>, \<^verbatim>\<open>attributes\<close>, \<^verbatim>\<open>value\<close>, \<^verbatim>\<open>id\<close>,
  \<^verbatim>\<open>type\<close>, \<^verbatim>\<open>name\<close>) are not defined, so the read gives \<^verbatim>\<open>undefined\<close>.
\<close>

fun getMember :: "jsval \<Rightarrow> string \<Rightarrow> js_error + jsval" where
  "getMember JUndefined k = Inl TypeError"
| "getMember JNull k = Inl TypeError"
| "getMember (JObject kvs) k = Inr (case map_of kvs k of None \<Rightarrow> JUndefined | Some v \<Rightarrow> v)"
| "getMember v k = Inr JUndefined"

text \<open>The same read where the base is known not to be \<^verbatim>\<open>undefined\<close> or \<^verbatim>\<open>null\<close>.\<close>

definition getProp :: "jsval \<Rightarrow> string \<Rightarrow> jsval" where
  "getProp v k = (case getMember v k of Inl e \<Rightarrow> JUndefined | Inr x \<Rightarrow> x)"

text \<open>
  \<^verbatim>\<open>String.prototype.trim\<close> removes white space at both ends. Among the code units
  0..255 the white space characters are tab, line feed, vertical tab, form feed,
  carriage return, space and the no-break space.
\<close>

definition isWhiteSpace :: "char \<Rightarrow> bool" where
  "isWhiteSpace c = (of_char c \<in> {9, 10, 11, 12, 13, 32, 160 :: nat})"

definition trim :: "string \<Rightarrow> string" where
  "trim s = rev (dropWhile isWhiteSpace (rev (dropWhile isWhiteSpace s)))"

text \<open>
  \<^verbatim>\<open>String.prototype.toLowerCase\<close> on the letters A..Z; other code units in the range
  0..127 are left as they are.
\<close>

definition lowerChar :: "char \<Rightarrow> char" where
  "lowerChar c =
     (case map_of (zip ''ABCDEFGHIJKLMNOPQRSTUVWXYZ'' ''abcdefghijklmnopqrstuvwxyz'') c of
        None \<Rightarrow> c | Some l \<Rightarrow> l)"

definition toLowerCase :: "string \<Rightarrow> string" where
  "toLowerCase s = map lowerChar s"

section \<open>Configuration, requests and replies\<close>

datatype data_to_store = ONLY_RAW | ONLY_AGGREGATED | BOTH

text \<open>
  \<^verbatim>\<open>sthConfig\<close> is handed to the module from outside; the options the server reads are
  the fields of this record.
\<close>

record config =
  SHOULD_STORE :: data_to_store
  IGNORE_BLANK_SPACES :: bool
  FILTER_OUT_EMPTY :: bool
  UNICA_CORRELATOR_HEADER :: string
  DEFAULT_SERVICE :: string
  DEFAULT_SERVICE_PATH :: string

text \<open>
  The query of a GET request as the handler receives it, after the joi schema of the
  route has converted and checked it: the three counters are integers greater than -1,
  the others strings; an absent parameter is \<open>None\<close>.
\<close>

record query =
  lastN :: "nat option"
  hLimit :: "nat option"
  hOffset :: "nat option"
  aggrMethod :: "string option"
  aggrPeriod :: "string option"
  dateFrom :: "string option"
  dateTo :: "string option"
  filetype :: "string option"

record params =
  entityType :: string
  entityId :: string
  attrName :: string

record request =
  headers :: "string \<rightharpoonup> string"
  params :: params
  query :: query
  payload :: jsval

text \<open>An error of the database driver, named by its message.\<close>

type_synonym err = string

record validation =
  source :: string
  keys :: "string list"

text \<open>
  What is handed to hapi's \<^verbatim>\<open>reply\<close>: nothing (\<^verbatim>\<open>reply(undefined)\<close>), a payload object,
  an error of the database, a \<^verbatim>\<open>boom.badRequest\<close> error carrying a validation body, a
  file or a stream.
\<close>

datatype reply_value =
    NoContent
  | Payload jsval
  | DbError err
  | BadRequest string validation
  | File string
  | Stream

text \<open>
  The HTTP status hapi gives each of them: 400 for \<^verbatim>\<open>boom.badRequest\<close>, 500 for any
  other error object, 200 otherwise.
\<close>

fun statusCode :: "reply_value \<Rightarrow> nat" where
  "statusCode (BadRequest m v) = 400"
| "statusCode (DbError e) = 500"
| "statusCode r = 200"

text \<open>\<^verbatim>\<open>reply(err)\<close> where \<^verbatim>\<open>err\<close> is the error argument of a database callback.\<close>

fun replyErr :: "err option \<Rightarrow> reply_value" where
  "replyErr None = NoContent"
| "replyErr (Some e) = DbError e"

section \<open>Notifications: which attributes are stored\<close>

text \<open>
  The test of both loops over the attributes (\<^verbatim>\<open>getTotalAttributes\<close> and
  \<^verbatim>\<open>processAttributes\<close>): when it holds the loop \<^verbatim>\<open>continue\<close>s and the attribute is
  skipped.
\<close>

definition valueIsSkipped :: "config \<Rightarrow> jsval \<Rightarrow> bool" where
  "valueIsSkipped cfg v \<longleftrightarrow>
     \<not> truthy v \<or>
     (typeof v \<noteq> TString \<and> typeof v \<noteq> TNumber) \<or>
     (IGNORE_BLANK_SPACES cfg \<and> typeof v = TString \<and>
        (case v of JString s \<Rightarrow> trim s = [] | _ \<Rightarrow> False))"

text \<open>The inner loop of \<^verbatim>\<open>getTotalAttributes\<close>, over the attributes of one context element.\<close>

fun countAttributes :: "config \<Rightarrow> jsval list \<Rightarrow> nat \<Rightarrow> js_error + nat" where
  "countAttributes cfg [] totalAttributes = Inr totalAttributes"
| "countAttributes cfg (a # as) totalAttributes =
     (case getMember a ''value'' of
        Inl e \<Rightarrow> Inl e
      | Inr v \<Rightarrow>
          if valueIsSkipped cfg v then countAttributes cfg as totalAttributes
          else countAttributes cfg as (Suc totalAttributes))"

text \<open>The outer loop of \<^verbatim>\<open>getTotalAttributes\<close>, over the context responses.\<close>

fun countResponses :: "config \<Rightarrow> jsval list \<Rightarrow> nat \<Rightarrow> js_error + nat" where
  "countResponses cfg [] totalAttributes = Inr totalAttributes"
| "countResponses cfg (cr # crs) totalAttributes =
     (case getMember cr ''contextElement'' of
        Inl e \<Rightarrow> Inl e
      | Inr contextElement \<Rightarrow>
          if truthy contextElement then
            (case getProp contextElement ''attributes'' of
               JArray attributes \<Rightarrow>
                 (case countAttributes cfg attributes totalAttributes of
                    Inl e \<Rightarrow> Inl e
                  | Inr n \<Rightarrow> countResponses cfg crs n)
             | _ \<Rightarrow> countResponses cfg crs totalAttributes)
          else countResponses cfg crs totalAttributes)"

definition getTotalAttributes :: "config \<Rightarrow> jsval list \<Rightarrow> js_error + nat" where
  "getTotalAttributes cfg contextResponses = countResponses cfg contextResponses 0"

section \<open>The database interface\<close>

text \<open>
  \<^verbatim>\<open>sthDatabase\<close> is handed to \<^verbatim>\<open>startServer\<close> from outside. The server calls it with a
  parameter object and a callback; a call that has been issued and whose callback has
  not run yet is pending. The first record is the namespace argument of
  \<^verbatim>\<open>getCollection\<close>, the second its options.
\<close>

record collection_params =
  service :: "string option"
  servicePath :: "string option"
  c_entityId :: jsval
  c_entityType :: jsval
  c_attrName :: jsval

record collection_options =
  isAggregated :: bool
  shouldCreate :: bool
  shouldStoreHash :: bool
  shouldTruncate :: bool

type_synonym collection = nat

record store_params =
  collection :: collection
  s_recvTime :: nat
  s_entityId :: jsval
  s_entityType :: jsval
  s_attribute :: jsval

datatype db_call =
    GetCollection collection_params collection_options
  | StoreRawData store_params
  | StoreAggregatedData store_params

text \<open>The \<^verbatim>\<open>data\<close> argument of \<^verbatim>\<open>storeRawData\<close> and \<^verbatim>\<open>storeAggregatedData\<close>.\<close>

record data =
  d_request :: request
  contextElement :: jsval
  attribute :: jsval
  recvTime :: nat

text \<open>
  The four callbacks the ingestion path hands to the database, each with what it has
  captured: the callbacks of \<^verbatim>\<open>getCollection\<close> in \<^verbatim>\<open>storeRawData\<close> and in
  \<^verbatim>\<open>storeAggregatedData\<close>, and the callbacks of the two writes.
\<close>

datatype continuation =
    RawCollectionCb data
  | AggrCollectionCb data
  | RawStoreCb
  | AggrStoreCb

text \<open>
  The state of one notification: the shared \<^verbatim>\<open>counterObj.counter\<close>, the variable
  \<^verbatim>\<open>totalTasks\<close> that the callbacks have captured, the values \<^verbatim>\<open>reply\<close> has been called
  with, in order, and the pending database calls.
\<close>

record ingest_state =
  counter :: nat
  totalTasks :: nat
  replies :: "reply_value list"
  pending :: "(db_call \<times> continuation) list"

section \<open>Storing a notification\<close>

text \<open>
  The synchronous part of \<^verbatim>\<open>storeRawData\<close> and of \<^verbatim>\<open>storeAggregatedData\<close>: the call of
  \<^verbatim>\<open>getCollection\<close>. The context element is truthy and the attribute has a value, so the
  reads of \<^verbatim>\<open>id\<close>, \<^verbatim>\<open>type\<close> and \<^verbatim>\<open>name\<close> do not throw.
\<close>

definition namespaceOf :: "data \<Rightarrow> collection_params" where
  "namespaceOf d =
     \<lparr> service = headers (d_request d) ''fiware-service'',
       servicePath = headers (d_request d) ''fiware-servicepath'',
       c_entityId = getProp (contextElement d) ''id'',
       c_entityType = getProp (contextElement d) ''type'',
       c_attrName = getProp (attribute d) ''name'' \<rparr>"

definition storeRawData :: "data \<Rightarrow> db_call \<times> continuation" where
  "storeRawData d =
     (GetCollection (namespaceOf d)
        \<lparr> isAggregated = False, shouldCreate = True, shouldStoreHash = True,
          shouldTruncate = True \<rparr>,
      RawCollectionCb d)"

definition storeAggregatedData :: "data \<Rightarrow> db_call \<times> continuation" where
  "storeAggregatedData d =
     (GetCollection (namespaceOf d)
        \<lparr> isAggregated = True, shouldCreate = True, shouldStoreHash = True,
          shouldTruncate = True \<rparr>,
      AggrCollectionCb d)"

text \<open>\<^verbatim>\<open>if (++counterObj.counter === totalTasks) reply(err)\<close>\<close>

definition countAndReply :: "err option \<Rightarrow> ingest_state \<Rightarrow> ingest_state" where
  "countAndReply e st =
     (let c = Suc (counter st) in
      st\<lparr> counter := c,
          replies := (if c = totalTasks st then replies st @ [replyErr e] else replies st) \<rparr>)"

definition storeParams :: "data \<Rightarrow> collection \<Rightarrow> store_params" where
  "storeParams d coll =
     \<lparr> collection = coll, s_recvTime = recvTime d,
       s_entityId = getProp (contextElement d) ''id'',
       s_entityType = getProp (contextElement d) ''type'',
       s_attribute = attribute d \<rparr>"

text \<open>
  Running a callback with the arguments \<^verbatim>\<open>(err, collection)\<close> the database gives it
  (a write callback gets \<^verbatim>\<open>err\<close> only).
\<close>

fun callback ::
  "config \<Rightarrow> continuation \<Rightarrow> err option \<Rightarrow> collection \<Rightarrow> ingest_state \<Rightarrow> ingest_state"
where
  "callback cfg (RawCollectionCb d) e coll st =
     (case e of
        Some x \<Rightarrow> countAndReply (Some x) st
      | None \<Rightarrow>
          if SHOULD_STORE cfg = ONLY_RAW \<or> SHOULD_STORE cfg = BOTH
          then st\<lparr> pending := pending st @ [(StoreRawData (storeParams d coll), RawStoreCb)] \<rparr>
          else st)"
| "callback cfg (AggrCollectionCb d) e coll st =
     (case e of
        Some x \<Rightarrow> countAndReply (Some x) st
      | None \<Rightarrow>
          if SHOULD_STORE cfg = ONLY_AGGREGATED \<or> SHOULD_STORE cfg = BOTH
          then st\<lparr> pending :=
                 pending st @ [(StoreAggregatedData (storeParams d coll), AggrStoreCb)] \<rparr>
          else st)"
| "callback cfg RawStoreCb e coll st = countAndReply e st"
| "callback cfg AggrStoreCb e coll st = countAndReply e st"

text \<open>The inner loop of \<^verbatim>\<open>processAttributes\<close>: the calls issued for one context element.\<close>

fun processAttributeList ::
  "config \<Rightarrow> nat \<Rightarrow> request \<Rightarrow> jsval \<Rightarrow> jsval list \<Rightarrow> (db_call \<times> continuation) list \<Rightarrow>
   js_error + (db_call \<times> continuation) list"
where
  "processAttributeList cfg t req ce [] issued = Inr issued"
| "processAttributeList cfg t req ce (a # as) issued =
     (case getMember a ''value'' of
        Inl e \<Rightarrow> Inl e
      | Inr v \<Rightarrow>
          if valueIsSkipped cfg v then processAttributeList cfg t req ce as issued
          else
            (let d = \<lparr> d_request = req, contextElement = ce, attribute = a, recvTime = t \<rparr>
             in processAttributeList cfg t req ce as
                  (issued @ [storeRawData d, storeAggregatedData d])))"

text \<open>The outer loop of \<^verbatim>\<open>processAttributes\<close>.\<close>

fun processResponses ::
  "config \<Rightarrow> nat \<Rightarrow> request \<Rightarrow> jsval list \<Rightarrow> (db_call \<times> continuation) list \<Rightarrow>
   js_error + (db_call \<times> continuation) list"
where
  "processResponses cfg t req [] issued = Inr issued"
| "processResponses cfg t req (cr # crs) issued =
     (case getMember cr ''contextElement'' of
        Inl e \<Rightarrow> Inl e
      | Inr ce \<Rightarrow>
          if truthy ce then
            (case getProp ce ''attributes'' of
               JArray attributes \<Rightarrow>
                 (case processAttributeList cfg t req ce attributes issued of
                    Inl e \<Rightarrow> Inl e
                  | Inr issued' \<Rightarrow> processResponses cfg t req crs issued')
             | _ \<Rightarrow> processResponses cfg t req crs issued)
          else processResponses cfg t req crs issued)"

definition totalTasksOf :: "config \<Rightarrow> nat \<Rightarrow> nat" where
  "totalTasksOf cfg totalAttributes =
     (if SHOULD_STORE cfg = BOTH then 2 * totalAttributes else 1 * totalAttributes)"

definition attributesError :: reply_value where
  "attributesError =
     BadRequest
       ''At least one attribute with an aggregatable value should be included in the notification''
       \<lparr> source = ''payload'', keys = [''attributes''] \<rparr>"

text \<open>
  \<^verbatim>\<open>processAttributes\<close>, up to the point where it returns: \<open>contextResponses\<close> are the
  elements of \<^verbatim>\<open>request.payload.contextResponses\<close>, which the handler has found to be an
  array. The result is the state in which the callbacks start to run, or the TypeError
  a read has thrown.
\<close>

definition processAttributes ::
  "config \<Rightarrow> nat \<Rightarrow> request \<Rightarrow> jsval list \<Rightarrow> js_error + ingest_state"
where
  "processAttributes cfg t req contextResponses =
     (case getTotalAttributes cfg contextResponses of
        Inl e \<Rightarrow> Inl e
      | Inr totalAttributes \<Rightarrow>
          if totalAttributes = 0
          then Inr \<lparr> counter = 0, totalTasks = totalTasksOf cfg totalAttributes,
                     replies = [attributesError], pending = [] \<rparr>
          else
            (case processResponses cfg t req contextResponses [] of
               Inl e \<Rightarrow> Inl e
             | Inr issued \<Rightarrow>
                 Inr \<lparr> counter = 0, totalTasks = totalTasksOf cfg totalAttributes,
                       replies = [], pending = issued \<rparr>))"

text \<open>
  The handler of \<^verbatim>\<open>POST /notify\<close>. Where it does not call \<^verbatim>\<open>processAttributes\<close> it does
  nothing at all: no call of the database is issued and \<^verbatim>\<open>reply\<close> is not called.
\<close>

definition nothingDone :: ingest_state where
  "nothingDone = \<lparr> counter = 0, totalTasks = 0, replies = [], pending = [] \<rparr>"

definition notifyHandler :: "config \<Rightarrow> nat \<Rightarrow> request \<Rightarrow> js_error + ingest_state" where
  "notifyHandler cfg t req =
     (if truthy (payload req) then
        (case getProp (payload req) ''contextResponses'' of
           JArray contextResponses \<Rightarrow> processAttributes cfg t req contextResponses
         | _ \<Rightarrow> Inr nothingDone)
      else Inr nothingDone)"

text \<open>
  The callbacks run one at a time, in any order. A schedule lists which pending call
  completes next (its position among the pending ones) and the arguments the database
  passes to its callback. A position that is not pending makes the schedule invalid.
\<close>

type_synonym completion = "nat \<times> err option \<times> collection"

definition step :: "config \<Rightarrow> completion \<Rightarrow> ingest_state \<Rightarrow> ingest_state option" where
  "step cfg x st =
     (case x of (i, e, coll) \<Rightarrow>
        if i < length (pending st)
        then Some (callback cfg (snd (pending st ! i)) e coll
                     (st\<lparr> pending := take i (pending st) @ drop (Suc i) (pending st) \<rparr>))
        else None)"

fun run :: "config \<Rightarrow> completion list \<Rightarrow> ingest_state \<Rightarrow> ingest_state option" where
  "run cfg [] st = Some st"
| "run cfg (x # xs) st =
     (case step cfg x st of
        None \<Rightarrow> None
      | Some st' \<Rightarrow> run cfg xs st')"

text \<open>The error argument of a completion.\<close>

definition errOf :: "completion \<Rightarrow> err option" where
  "errOf x = fst (snd x)"

text \<open>
  A notification from its arrival to the end of a schedule: the handler, then the
  callbacks in the order of the schedule.
\<close>

definition notify :: "config \<Rightarrow> nat \<Rightarrow> request \<Rightarrow> completion list \<Rightarrow> ingest_state option" where
  "notify cfg t req sched =
     (case notifyHandler cfg t req of
        Inl e \<Rightarrow> None
      | Inr st \<Rightarrow> run cfg sched st)"

subsection \<open>Retained attributes and subtasks\<close>

text \<open>
  The attributes of a notification that are retained, each with its context element:
  the flattened list the specification speaks of. The two loops of the server are
  compared with it below.
\<close>

definition retainedOf :: "config \<Rightarrow> jsval list \<Rightarrow> jsval list" where
  "retainedOf cfg attributes =
     filter (\<lambda>a. \<not> valueIsSkipped cfg (getProp a ''value'')) attributes"

definition retainedAttributes :: "config \<Rightarrow> jsval list \<Rightarrow> (jsval \<times> jsval) list" where
  "retainedAttributes cfg contextResponses =
     concat (map (\<lambda>cr.
       let ce = getProp cr ''contextElement'' in
       if truthy ce then
         (case getProp ce ''attributes'' of
            JArray attributes \<Rightarrow> map (Pair ce) (retainedOf cfg attributes)
          | _ \<Rightarrow> [])
       else []) contextResponses)"

text \<open>The two calls \<^verbatim>\<open>processAttributes\<close> makes for one retained attribute.\<close>

definition subtasksOf :: "nat \<Rightarrow> request \<Rightarrow> jsval \<times> jsval \<Rightarrow> (db_call \<times> continuation) list" where
  "subtasksOf t req x =
     (let d = \<lparr> d_request = req, contextElement = fst x, attribute = snd x, recvTime = t \<rparr>
      in [storeRawData d, storeAggregatedData d])"

text \<open>
  A callback settles its subtask when it is the one that counts: the callback of
  \<^verbatim>\<open>getCollection\<close> when it is given an error, the callback of a write always.
\<close>

definition settles :: "continuation \<Rightarrow> err option \<Rightarrow> bool" where
  "settles k e =
     (case k of
        RawCollectionCb d \<Rightarrow> e \<noteq> None
      | AggrCollectionCb d \<Rightarrow> e \<noteq> None
      | RawStoreCb \<Rightarrow> True
      | AggrStoreCb \<Rightarrow> True)"

text \<open>
  A pending call that is certain to count once: a write, or a \<^verbatim>\<open>getCollection\<close> whose
  write the store mode allows.
\<close>

definition willCount :: "config \<Rightarrow> db_call \<times> continuation \<Rightarrow> bool" where
  "willCount cfg p =
     (case snd p of
        RawCollectionCb d \<Rightarrow> SHOULD_STORE cfg = ONLY_RAW \<or> SHOULD_STORE cfg = BOTH
      | AggrCollectionCb d \<Rightarrow> SHOULD_STORE cfg = ONLY_AGGREGATED \<or> SHOULD_STORE cfg = BOTH
      | RawStoreCb \<Rightarrow> True
      | AggrStoreCb \<Rightarrow> True)"

definition owed :: "config \<Rightarrow> (db_call \<times> continuation) list \<Rightarrow> nat" where
  "owed cfg ps = length (filter (willCount cfg) ps)"

text \<open>At most one reply, sent exactly when the counter has reached \<^verbatim>\<open>totalTasks\<close>.\<close>

definition repliedOnce :: "ingest_state \<Rightarrow> bool" where
  "repliedOnce st \<longleftrightarrow> length (replies st) = (if totalTasks st \<le> counter st then 1 else 0)"

section \<open>Queries\<close>

text \<open>
  The \<^verbatim>\<open>headers\<close> validator of the GET route. It does not reply itself: it reports to
  hapi through \<^verbatim>\<open>next\<close>, and hapi builds the response. The result lists the calls of
  \<^verbatim>\<open>next\<close> in order, each with the error it passes, if any. After \<^verbatim>\<open>next(error)\<close> the
  function does not return: it goes on to the \<^verbatim>\<open>next()\<close> at its end.
\<close>

definition headerGiven :: "string option \<Rightarrow> bool" where
  "headerGiven x = (case x of None \<Rightarrow> False | Some s \<Rightarrow> s \<noteq> [])"

definition getHeadersValidator :: "(string \<rightharpoonup> string) \<Rightarrow> reply_value option list" where
  "getHeadersValidator v =
     (if \<not> headerGiven (v ''fiware-service'') then
        [Some (BadRequest
                 (''error=child '' @ [CHR 0x22] @ ''fiware-service'' @ [CHR 0x22] @
                  '' fails because [fiware-service is required]'')
                 \<lparr> source = ''headers'', keys = [''fiware-service''] \<rparr>),
         None]
      else if \<not> headerGiven (v ''fiware-servicepath'') then
        [Some (BadRequest
                 (''child '' @ [CHR 0x22] @ ''fiware-servicepath'' @ [CHR 0x22] @
                  '' fails because [fiware-servicepath is required]'')
                 \<lparr> source = ''headers'', keys = [''fiware-servicepath''] \<rparr>),
         None]
      else [None])"

text \<open>
  The \<^verbatim>\<open>query\<close> schema of the GET route, as far as the type of \<^typ>\<open>query\<close> does not say
  it already: joi accepts no empty string, and only the listed aggregation methods and
  periods.
\<close>

definition joiQueryValid :: "query \<Rightarrow> bool" where
  "joiQueryValid q \<longleftrightarrow>
     (case aggrMethod q of None \<Rightarrow> True
      | Some m \<Rightarrow> m \<in> set [''max'', ''min'', ''sum'', ''sum2'', ''occur'']) \<and>
     (case aggrPeriod q of None \<Rightarrow> True
      | Some p \<Rightarrow> p \<in> set [''month'', ''day'', ''hour'', ''minute'', ''second'']) \<and>
     (case filetype q of None \<Rightarrow> True | Some f \<Rightarrow> f \<noteq> [])"

text \<open>\<^verbatim>\<open>x || x === 0\<close> for a counter of the query, and the truthiness of a string of it.\<close>

definition numberGiven :: "nat option \<Rightarrow> bool" where
  "numberGiven x \<longleftrightarrow> (case x of None \<Rightarrow> False | Some n \<Rightarrow> n \<noteq> 0) \<or> x = Some 0"

definition stringGiven :: "string option \<Rightarrow> bool" where
  "stringGiven x = (case x of None \<Rightarrow> False | Some s \<Rightarrow> s \<noteq> [])"

text \<open>The three branches of the GET handler.\<close>

datatype route = RawData | AggregatedData | QueryError

definition getDataRoute :: "query \<Rightarrow> route" where
  "getDataRoute q =
     (if numberGiven (lastN q) \<or>
         (numberGiven (hLimit q) \<and> numberGiven (hOffset q)) \<or>
         (stringGiven (filetype q) \<and>
            (case filetype q of None \<Rightarrow> False | Some f \<Rightarrow> toLowerCase f = ''csv''))
      then RawData
      else if stringGiven (aggrMethod q) \<and> stringGiven (aggrPeriod q)
      then AggregatedData
      else QueryError)"

definition queryError :: reply_value where
  "queryError =
     BadRequest
       (''A combination of the following query params is required: lastN, hLimit and hOffset, '' @
        ''filetype, or aggrMethod and aggrPeriod'')
       \<lparr> source = ''query'',
         keys = [''lastN'', ''hLimit'', ''hOffset'', ''filetype'', ''aggrMethod'', ''aggrPeriod''] \<rparr>"

text \<open>
  Modelled from the spec: \<^verbatim>\<open>sthHelper.getEmptyResponse\<close> is defined in
  \<^verbatim>\<open>lib/sth_helper.js\<close>, which is not among the sources; the specification gives the
  empty result as the empty list.
\<close>

definition getEmptyResponse :: jsval where
  "getEmptyResponse = JArray []"

text \<open>
  Modelled from the spec: \<^verbatim>\<open>sthHelper.getNGSIPayload\<close> is defined in
  \<^verbatim>\<open>lib/sth_helper.js\<close>, which is not among the sources; the specification gives the
  response envelope for data queries.
\<close>

definition getNGSIPayload :: "string \<Rightarrow> string \<Rightarrow> string \<Rightarrow> jsval \<Rightarrow> jsval" where
  "getNGSIPayload eId eType aName vals =
     JObject
       [(''contextResponses'',
         JArray
           [JObject
              [(''contextElement'',
                JObject
                  [(''id'', JString eId),
                   (''type'', JString eType),
                   (''isPattern'', JBool False),
                   (''attributes'',
                    JArray [JObject [(''name'', JString aName), (''values'', vals)]])]),
               (''statusCode'',
                JObject [(''code'', JString ''200''), (''reasonPhrase'', JString ''OK'')])]])]"

text \<open>What the database passes as \<^verbatim>\<open>result\<close> to the callback of \<^verbatim>\<open>getRawData\<close>.\<close>

datatype raw_result = NoResult | Docs "jsval list" | FilePath string | Cursor

text \<open>The HTTP response: what \<^verbatim>\<open>reply\<close> was called with and the headers set on it.\<close>

record response =
  body :: reply_value
  responseHeaders :: "(string \<times> string) list"

definition correlatorHeader :: "string option \<Rightarrow> (string \<times> string) list" where
  "correlatorHeader unicaCorrelatorPassed =
     (case unicaCorrelatorPassed of
        None \<Rightarrow> []
      | Some u \<Rightarrow> if u \<noteq> [] then [(''Unica-Correlator'', u)] else [])"

definition emptyPayload :: "request \<Rightarrow> jsval" where
  "emptyPayload req =
     getNGSIPayload (entityId (params req)) (entityType (params req)) (attrName (params req))
       getEmptyResponse"

definition fileNameOf :: "string \<Rightarrow> string" where
  "fileNameOf path = rev (takeWhile (\<lambda>c. c \<noteq> CHR ''/'') (rev path))"

text \<open>
  \<^verbatim>\<open>getRawData\<close>: the first pair holds the arguments \<^verbatim>\<open>(err, collection)\<close> of the callback
  of \<^verbatim>\<open>getCollection\<close>, the second the arguments \<^verbatim>\<open>(err, result)\<close> of the callback of
  \<^verbatim>\<open>sthDatabase.getRawData\<close>, which is called only when the collection was found.

  The header is set on what \<^verbatim>\<open>reply\<close> has returned. For a payload, a file or a stream
  that is the response. For \<^verbatim>\<open>reply(err)\<close> with an error of the database it is hapi's
  error object, which has no \<^verbatim>\<open>header\<close> function: the call after it sets nothing (with a
  correlator it throws, after the reply has been made), and the 500 goes out without the
  header.
\<close>

definition getRawData ::
  "request \<Rightarrow> string option \<Rightarrow> err option \<times> collection \<Rightarrow> err option \<times> raw_result \<Rightarrow> response"
where
  "getRawData req unicaCorrelatorPassed collectionAnswer dataAnswer =
     (case fst collectionAnswer of
        Some e \<Rightarrow> \<lparr> body = Payload (emptyPayload req), responseHeaders = [] \<rparr>
      | None \<Rightarrow>
          (case fst dataAnswer of
             Some e \<Rightarrow> \<lparr> body = DbError e, responseHeaders = [] \<rparr>
           | None \<Rightarrow>
               (case snd dataAnswer of
                  NoResult \<Rightarrow>
                    \<lparr> body = Payload (emptyPayload req),
                      responseHeaders = correlatorHeader unicaCorrelatorPassed \<rparr>
                | Cursor \<Rightarrow>
                    \<lparr> body = Stream, responseHeaders = correlatorHeader unicaCorrelatorPassed \<rparr>
                | FilePath f \<Rightarrow>
                    if f = [] then
                      \<lparr> body = Payload (emptyPayload req),
                        responseHeaders = correlatorHeader unicaCorrelatorPassed \<rparr>
                    else
                      \<lparr> body = File f,
                        responseHeaders =
                          (''Content-Disposition'', ''attachment; filename='' @ fileNameOf f) #
                          correlatorHeader unicaCorrelatorPassed \<rparr>
                | Docs ds \<Rightarrow>
                    if ds = [] then
                      \<lparr> body = Payload (emptyPayload req),
                        responseHeaders = correlatorHeader unicaCorrelatorPassed \<rparr>
                    else
                      \<lparr> body =
                          Payload
                            (getNGSIPayload (entityId (params req)) (entityType (params req))
                               (attrName (params req)) (JArray ds)),
                        responseHeaders = correlatorHeader unicaCorrelatorPassed \<rparr>)))"

text \<open>\<^verbatim>\<open>getAggregatedData\<close>, in the same way; its result is a list of buckets or nothing.\<close>

definition getAggregatedData ::
  "request \<Rightarrow> string option \<Rightarrow> err option \<times> collection \<Rightarrow> err option \<times> jsval list option \<Rightarrow>
   response"
where
  "getAggregatedData req unicaCorrelatorPassed collectionAnswer dataAnswer =
     (case fst collectionAnswer of
        Some e \<Rightarrow> \<lparr> body = Payload (emptyPayload req), responseHeaders = [] \<rparr>
      | None \<Rightarrow>
          (case fst dataAnswer of
             Some e \<Rightarrow> \<lparr> body = DbError e, responseHeaders = [] \<rparr>
           | None \<Rightarrow>
               (case snd dataAnswer of
                  None \<Rightarrow>
                    \<lparr> body = Payload (emptyPayload req),
                      responseHeaders = correlatorHeader unicaCorrelatorPassed \<rparr>
                | Some ds \<Rightarrow>
                    if ds = [] then
                      \<lparr> body = Payload (emptyPayload req),
                        responseHeaders = correlatorHeader unicaCorrelatorPassed \<rparr>
                    else
                      \<lparr> body =
                          Payload
                            (getNGSIPayload (entityId (params req)) (entityType (params req))
                               (attrName (params req)) (JArray ds)),
                        responseHeaders = correlatorHeader unicaCorrelatorPassed \<rparr>)))"

text \<open>The answers of the database to the calls one GET request can make.\<close>

record db_answers =
  collectionAnswer :: "err option \<times> collection"
  rawAnswer :: "err option \<times> raw_result"
  aggregatedAnswer :: "err option \<times> jsval list option"

text \<open>The handler of the GET route for data.\<close>

definition getDataHandler :: "config \<Rightarrow> request \<Rightarrow> db_answers \<Rightarrow> response" where
  "getDataHandler cfg req db =
     (let unicaCorrelatorPassed = headers req (UNICA_CORRELATOR_HEADER cfg) in
      case getDataRoute (query req) of
        RawData \<Rightarrow> getRawData req unicaCorrelatorPassed (collectionAnswer db) (rawAnswer db)
      | AggregatedData \<Rightarrow>
          getAggregatedData req unicaCorrelatorPassed (collectionAnswer db) (aggregatedAnswer db)
      | QueryError \<Rightarrow> \<lparr> body = queryError, responseHeaders = [] \<rparr>)"

section \<open>Example inputs\<close>

definition exampleConfig :: "data_to_store \<Rightarrow> config" where
  "exampleConfig m =
     \<lparr> SHOULD_STORE = m, IGNORE_BLANK_SPACES = True, FILTER_OUT_EMPTY = True,
       UNICA_CORRELATOR_HEADER = ''unica-correlator'',
       DEFAULT_SERVICE = ''orion'', DEFAULT_SERVICE_PATH = ''/'' \<rparr>"

definition exampleAttribute :: "jsval \<Rightarrow> jsval" where
  "exampleAttribute v =
     JObject [(''name'', JString ''t''), (''type'', JString ''float''), (''value'', v)]"

definition exampleElement :: "jsval list \<Rightarrow> jsval" where
  "exampleElement attrs =
     JObject [(''id'', JString ''room1''), (''type'', JString ''Room''),
              (''attributes'', JArray attrs)]"

definition exampleResponses :: "jsval list \<Rightarrow> jsval list" where
  "exampleResponses attrs = [JObject [(''contextElement'', exampleElement attrs)]]"

definition exampleNotification :: "jsval list \<Rightarrow> jsval" where
  "exampleNotification attrs = JObject [(''contextResponses'', JArray (exampleResponses attrs))]"

definition emptyQuery :: query where
  "emptyQuery =
     \<lparr> lastN = None, hLimit = None, hOffset = None, aggrMethod = None,
       aggrPeriod = None, dateFrom = None, dateTo = None, filetype = None \<rparr>"

definition exampleRequest :: "query \<Rightarrow> jsval \<Rightarrow> request" where
  "exampleRequest q p =
     \<lparr> headers = [''fiware-service'' \<mapsto> ''orion'', ''fiware-servicepath'' \<mapsto> ''/'',
                   ''unica-correlator'' \<mapsto> ''abc''],
       params = \<lparr> entityType = ''Room'', entityId = ''room1'', attrName = ''t'' \<rparr>,
       query = q, payload = p \<rparr>"

text \<open>The validation body of a reply, where it has one.\<close>

fun validationOf :: "reply_value \<Rightarrow> validation option" where
  "validationOf (BadRequest m v) = Some v"
| "validationOf r = None"

text \<open>
  A notification of one attribute with the value \<^verbatim>\<open>"21.5"\<close>, and a schedule for it under
  the store mode BOTH: the raw \<^verbatim>\<open>getCollection\<close> fails, the aggregated one succeeds, the
  aggregated write succeeds.
\<close>

definition exampleRoom :: "jsval list" where
  "exampleRoom = exampleResponses [exampleAttribute (JString ''21.5'')]"

definition examplePost :: request where
  "examplePost = exampleRequest emptyQuery (JObject [(''contextResponses'', JArray exampleRoom)])"

definition exampleSchedule :: "completion list" where
  "exampleSchedule = [(0, Some ''down'', 0), (0, None, 7), (0, None, 0)]"

definition exampleData :: data where
  "exampleData =
     \<lparr> d_request = examplePost,
       contextElement = exampleElement [exampleAttribute (JString ''21.5'')],
       attribute = exampleAttribute (JString ''21.5''), recvTime = 0 \<rparr>"

text \<open>
  Queries for the examples: one that gives only \<^verbatim>\<open>filetype=CSV\<close>, one that asks for the
  last event, and a database that does not find the collection.
\<close>

definition csvQuery :: query where
  "csvQuery = emptyQuery\<lparr> filetype := Some ''CSV'' \<rparr>"

definition lastQuery :: query where
  "lastQuery = emptyQuery\<lparr> lastN := Some 1 \<rparr>"

definition noCollection :: db_answers where
  "noCollection =
     \<lparr> collectionAnswer = (Some ''no collection'', 0), rawAnswer = (None, NoResult),
       aggregatedAnswer = (None, None) \<rparr>"

section \<open>The loops of the server and the retained attributes\<close>

lemma getProp_of_getMember: "getMember a k = Inr v \<Longrightarrow> getProp a k = v"
  by (simp add: getProp_def)

lemma countAttributes_retained:
  "countAttributes cfg as n = Inr m \<Longrightarrow> m = n + length (retainedOf cfg as)"
proof (induction as arbitrary: n)
  case Nil
  then show ?case by (simp add: retainedOf_def)
next
  case (Cons a as)
  from Cons.prems obtain v where v: "getMember a ''value'' = Inr v"
    by (cases "getMember a ''value''") auto
  show ?case
  proof (cases "valueIsSkipped cfg v")
    case True
    with Cons.prems v have "countAttributes cfg as n = Inr m" by simp
    from Cons.IH[OF this] True v show ?thesis
      by (simp add: retainedOf_def getProp_of_getMember)
  next
    case False
    with Cons.prems v have "countAttributes cfg as (Suc n) = Inr m" by simp
    from Cons.IH[OF this] False v show ?thesis
      by (simp add: retainedOf_def getProp_of_getMember)
  qed
qed

lemma processAttributeList_retained:
  "countAttributes cfg as n = Inr m \<Longrightarrow>
   processAttributeList cfg t req ce as issued =
     Inr (issued @ concat (map (subtasksOf t req) (map (Pair ce) (retainedOf cfg as))))"
proof (induction as arbitrary: n issued)
  case Nil
  then show ?case by (simp add: retainedOf_def)
next
  case (Cons a as)
  from Cons.prems obtain v where v: "getMember a ''value'' = Inr v"
    by (cases "getMember a ''value''") auto
  show ?case
  proof (cases "valueIsSkipped cfg v")
    case True
    with Cons.prems v have "countAttributes cfg as n = Inr m" by simp
    from Cons.IH[OF this] True v show ?thesis
      by (simp add: retainedOf_def getProp_of_getMember)
  next
    case False
    with Cons.prems v have "countAttributes cfg as (Suc n) = Inr m" by simp
    from Cons.IH[OF this] False v show ?thesis
      by (simp add: retainedOf_def getProp_of_getMember subtasksOf_def Let_def)
  qed
qed

lemma retainedAttributes_Cons:
  "retainedAttributes cfg (cr # crs) =
     (let ce = getProp cr ''contextElement'' in
      if truthy ce then
        (case getProp ce ''attributes'' of
           JArray attributes \<Rightarrow> map (Pair ce) (retainedOf cfg attributes)
         | _ \<Rightarrow> [])
      else []) @ retainedAttributes cfg crs"
  by (simp add: retainedAttributes_def)

lemma countResponses_retained:
  "countResponses cfg crs n = Inr m \<Longrightarrow> m = n + length (retainedAttributes cfg crs)"
proof (induction crs arbitrary: n)
  case Nil
  then show ?case by (simp add: retainedAttributes_def)
next
  case (Cons cr crs)
  from Cons.prems obtain ce where ce: "getMember cr ''contextElement'' = Inr ce"
    by (cases "getMember cr ''contextElement''") auto
  show ?case
  proof (cases "truthy ce \<and> (\<exists>as. getProp ce ''attributes'' = JArray as)")
    case False
    with Cons.prems ce have "countResponses cfg crs n = Inr m"
      by (auto split: jsval.splits)
    from Cons.IH[OF this] False ce show ?thesis
      by (auto simp: retainedAttributes_Cons getProp_of_getMember Let_def split: jsval.splits)
  next
    case True
    then obtain as where tr: "truthy ce" and as: "getProp ce ''attributes'' = JArray as"
      by blast
    from Cons.prems ce tr as obtain k where
      k: "countAttributes cfg as n = Inr k" and rest: "countResponses cfg crs k = Inr m"
      by (auto split: sum.splits)
    from countAttributes_retained[OF k] Cons.IH[OF rest] ce tr as show ?thesis
      by (simp add: retainedAttributes_Cons getProp_of_getMember Let_def)
  qed
qed

lemma processResponses_retained:
  "countResponses cfg crs n = Inr m \<Longrightarrow>
   processResponses cfg t req crs issued =
     Inr (issued @ concat (map (subtasksOf t req) (retainedAttributes cfg crs)))"
proof (induction crs arbitrary: n issued)
  case Nil
  then show ?case by (simp add: retainedAttributes_def)
next
  case (Cons cr crs)
  from Cons.prems obtain ce where ce: "getMember cr ''contextElement'' = Inr ce"
    by (cases "getMember cr ''contextElement''") auto
  show ?case
  proof (cases "truthy ce \<and> (\<exists>as. getProp ce ''attributes'' = JArray as)")
    case False
    with Cons.prems ce have "countResponses cfg crs n = Inr m"
      by (auto split: jsval.splits)
    from Cons.IH[OF this, of issued] False ce show ?thesis
      by (auto simp: retainedAttributes_Cons getProp_of_getMember Let_def split: jsval.splits)
  next
    case True
    then obtain as where tr: "truthy ce" and as: "getProp ce ''attributes'' = JArray as"
      by blast
    from Cons.prems ce tr as obtain k where
      k: "countAttributes cfg as n = Inr k" and rest: "countResponses cfg crs k = Inr m"
      by (auto split: sum.splits)
    from processAttributeList_retained[OF k, of t req ce issued] Cons.IH[OF rest] ce tr as
    show ?thesis
      by (simp add: retainedAttributes_Cons getProp_of_getMember Let_def)
  qed
qed

lemma getTotalAttributes_retained:
  "getTotalAttributes cfg crs = Inr n \<Longrightarrow> n = length (retainedAttributes cfg crs)"
  using countResponses_retained[of cfg crs 0 n] by (simp add: getTotalAttributes_def)

lemma processAttributes_start:
  assumes "getTotalAttributes cfg crs = Inr n" and "0 < n"
  shows "processAttributes cfg t req crs =
           Inr \<lparr> counter = 0, totalTasks = totalTasksOf cfg n, replies = [],
                 pending = concat (map (subtasksOf t req) (retainedAttributes cfg crs)) \<rparr>"
proof -
  from assms(1) have c: "countResponses cfg crs 0 = Inr n" by (simp add: getTotalAttributes_def)
  from assms processResponses_retained[OF c, of t req "[]"] show ?thesis
    by (simp add: processAttributes_def)
qed

section \<open>One callback\<close>

lemma countAndReply_simps:
  "counter (countAndReply e st) = Suc (counter st)"
  "totalTasks (countAndReply e st) = totalTasks st"
  "pending (countAndReply e st) = pending st"
  "replies (countAndReply e st) =
     (if Suc (counter st) = totalTasks st then replies st @ [replyErr e] else replies st)"
  by (simp_all add: countAndReply_def Let_def)

lemma callback_counter:
  "counter (callback cfg k e c st) = (if settles k e then Suc (counter st) else counter st)"
  by (cases k; cases e) (simp_all add: settles_def countAndReply_simps)

lemma callback_totalTasks: "totalTasks (callback cfg k e c st) = totalTasks st"
  by (cases k; cases e) (simp_all add: countAndReply_simps)

lemma callback_replies:
  "replies (callback cfg k e c st) =
     (if settles k e \<and> Suc (counter st) = totalTasks st
      then replies st @ [replyErr e] else replies st)"
  by (cases k; cases e) (simp_all add: settles_def countAndReply_simps)

lemma callback_pending_length:
  "SHOULD_STORE cfg = BOTH \<Longrightarrow>
   length (pending (callback cfg k e c st)) =
     (if settles k e then length (pending st) else Suc (length (pending st)))"
  by (cases k; cases e) (simp_all add: settles_def countAndReply_simps)

lemma callback_owed:
  "owed cfg (pending st) + (if willCount cfg (call, k) then 1 else 0) \<le>
   owed cfg (pending (callback cfg k e c st)) + (if settles k e then 1 else 0)"
  by (cases k; cases e) (simp_all add: settles_def countAndReply_simps owed_def willCount_def)

lemma owed_remove:
  assumes "i < length ps"
  shows "owed cfg (take i ps @ drop (Suc i) ps) + (if willCount cfg (ps ! i) then 1 else 0) =
         owed cfg ps"
proof -
  from assms have "ps = take i ps @ ps ! i # drop (Suc i) ps" by (rule id_take_nth_drop)
  then have "owed cfg ps = owed cfg (take i ps @ ps ! i # drop (Suc i) ps)" by simp
  then show ?thesis by (simp add: owed_def)
qed

lemma step_Some:
  assumes "step cfg x st = Some st'"
  obtains i e c where "x = (i, e, c)" "i < length (pending st)"
    "st' = callback cfg (snd (pending st ! i)) e c
             (st\<lparr> pending := take i (pending st) @ drop (Suc i) (pending st) \<rparr>)"
  using assms by (cases x) (auto simp: step_def split: if_splits)

lemma step_counter:
  assumes "step cfg x st = Some st'"
  shows "counter st' =
     (if settles (snd (pending st ! fst x)) (errOf x) then Suc (counter st) else counter st)"
  using assms by (elim step_Some) (simp add: callback_counter errOf_def)

lemma step_totalTasks:
  assumes "step cfg x st = Some st'"
  shows "totalTasks st' = totalTasks st"
  using assms by (elim step_Some) (simp add: callback_totalTasks)

lemma step_replies:
  assumes "step cfg x st = Some st'"
  shows "replies st' =
     (if settles (snd (pending st ! fst x)) (errOf x) \<and> Suc (counter st) = totalTasks st
      then replies st @ [replyErr (errOf x)] else replies st)"
  using assms by (elim step_Some) (simp add: callback_replies errOf_def)

lemma step_owed:
  assumes "step cfg x st = Some st'"
  shows "counter st + owed cfg (pending st) \<le> counter st' + owed cfg (pending st')"
proof -
  from assms obtain i e c where x: "x = (i, e, c)" and i: "i < length (pending st)"
    and st': "st' = callback cfg (snd (pending st ! i)) e c
             (st\<lparr> pending := take i (pending st) @ drop (Suc i) (pending st) \<rparr>)"
    by (rule step_Some)
  let ?k = "snd (pending st ! i)"
  let ?rest = "take i (pending st) @ drop (Suc i) (pending st)"
  have a: "owed cfg ?rest + (if willCount cfg (pending st ! i) then 1 else 0) =
           owed cfg (pending st)"
    using i by (rule owed_remove)
  have b: "owed cfg ?rest + (if willCount cfg (fst (pending st ! i), ?k) then 1 else 0) \<le>
           owed cfg (pending st') + (if settles ?k e then 1 else 0)"
    unfolding st'
    using callback_owed[of cfg "st\<lparr>pending := ?rest\<rparr>" "fst (pending st ! i)" ?k e c]
    by simp
  have c: "counter st' = (if settles ?k e then Suc (counter st) else counter st)"
    unfolding st' by (simp add: callback_counter)
  from a b c show ?thesis by (simp split: if_splits)
qed

lemma step_both:
  assumes "step cfg x st = Some st'" and "SHOULD_STORE cfg = BOTH"
  shows "counter st' + length (pending st') = counter st + length (pending st)"
proof -
  from assms(1) obtain i e c where x: "x = (i, e, c)" and i: "i < length (pending st)"
    and st': "st' = callback cfg (snd (pending st ! i)) e c
             (st\<lparr> pending := take i (pending st) @ drop (Suc i) (pending st) \<rparr>)"
    by (rule step_Some)
  let ?rest = "take i (pending st) @ drop (Suc i) (pending st)"
  from i have len: "Suc (length ?rest) = length (pending st)"
    by simp
  have "length (pending st') =
          (if settles (snd (pending st ! i)) e then length ?rest else Suc (length ?rest))"
    unfolding st' using assms(2) by (simp only: callback_pending_length) simp
  moreover have "counter st' =
          (if settles (snd (pending st ! i)) e then Suc (counter st) else counter st)"
    unfolding st' by (simp add: callback_counter)
  ultimately show ?thesis using len by (simp split: if_splits)
qed

lemma step_repliedOnce:
  assumes "step cfg x st = Some st'" and "repliedOnce st"
  shows "repliedOnce st'"
  using assms(2) step_counter[OF assms(1)] step_replies[OF assms(1)] step_totalTasks[OF assms(1)]
  by (auto simp: repliedOnce_def split: if_splits)

section \<open>A whole schedule\<close>

lemma run_Cons_Some:
  assumes "run cfg (x # xs) st = Some st'"
  obtains st1 where "step cfg x st = Some st1" "run cfg xs st1 = Some st'"
  using assms by (auto split: option.splits)

lemma run_snoc:
  "run cfg (xs @ [x]) st = (case run cfg xs st of None \<Rightarrow> None | Some s \<Rightarrow> step cfg x s)"
  by (induction xs arbitrary: st) (auto split: option.splits)

lemma run_totalTasks: "run cfg xs st = Some st' \<Longrightarrow> totalTasks st' = totalTasks st"
proof (induction xs arbitrary: st)
  case Nil
  then show ?case by simp
next
  case (Cons x xs)
  from Cons.prems obtain st1 where s: "step cfg x st = Some st1"
    and r: "run cfg xs st1 = Some st'"
    by (rule run_Cons_Some)
  from step_totalTasks[OF s] Cons.IH[OF r] show ?case by simp
qed

lemma run_repliedOnce:
  "run cfg xs st = Some st' \<Longrightarrow> repliedOnce st \<Longrightarrow> repliedOnce st'"
proof (induction xs arbitrary: st)
  case Nil
  then show ?case by simp
next
  case (Cons x xs)
  from Cons.prems(1) obtain st1 where s: "step cfg x st = Some st1"
    and r: "run cfg xs st1 = Some st'"
    by (rule run_Cons_Some)
  from step_repliedOnce[OF s Cons.prems(2)] Cons.IH[OF r] show ?case by simp
qed

lemma run_owed:
  "run cfg xs st = Some st' \<Longrightarrow>
   counter st + owed cfg (pending st) \<le> counter st' + owed cfg (pending st')"
proof (induction xs arbitrary: st)
  case Nil
  then show ?case by simp
next
  case (Cons x xs)
  from Cons.prems(1) obtain st1 where s: "step cfg x st = Some st1"
    and r: "run cfg xs st1 = Some st'"
    by (rule run_Cons_Some)
  from step_owed[OF s] Cons.IH[OF r] show ?case by simp
qed

lemma run_both:
  "run cfg xs st = Some st' \<Longrightarrow> SHOULD_STORE cfg = BOTH \<Longrightarrow>
   counter st' + length (pending st') = counter st + length (pending st)"
proof (induction xs arbitrary: st)
  case Nil
  then show ?case by simp
next
  case (Cons x xs)
  from Cons.prems(1) obtain st1 where s: "step cfg x st = Some st1"
    and r: "run cfg xs st1 = Some st'"
    by (rule run_Cons_Some)
  from step_both[OF s Cons.prems(2)] Cons.IH[OF r Cons.prems(2)] show ?case by simp
qed

lemma owed_subtasks:
  "owed cfg (concat (map (subtasksOf t req) rs)) = totalTasksOf cfg (length rs)"
proof (induction rs)
  case Nil
  then show ?case by (simp add: owed_def totalTasksOf_def)
next
  case (Cons r rs)
  then show ?case
    by (cases "SHOULD_STORE cfg")
       (simp_all add: owed_def totalTasksOf_def subtasksOf_def Let_def willCount_def
                      storeRawData_def storeAggregatedData_def)
qed

lemma length_subtasks:
  "length (concat (map (subtasksOf t req) rs)) = 2 * length rs"
  by (induction rs) (simp_all add: subtasksOf_def Let_def)

lemma run_replies_stable:
  "run cfg xs st = Some st' \<Longrightarrow> totalTasks st \<le> counter st \<Longrightarrow> replies st' = replies st"
proof (induction xs arbitrary: st)
  case Nil
  then show ?case by simp
next
  case (Cons x xs)
  from Cons.prems(1) obtain st1 where s: "step cfg x st = Some st1"
    and r: "run cfg xs st1 = Some st'"
    by (rule run_Cons_Some)
  from step_counter[OF s] step_totalTasks[OF s] Cons.prems(2)
  have le: "totalTasks st1 \<le> counter st1" by (simp split: if_splits)
  from step_replies[OF s] Cons.prems(2) have "replies st1 = replies st" by simp
  with Cons.IH[OF r le] show ?case by simp
qed

lemma reply_source:
  "run cfg xs st = Some st' \<Longrightarrow> repliedOnce st \<Longrightarrow> replies st = [] \<Longrightarrow> replies st' \<noteq> [] \<Longrightarrow>
   \<exists>k<length xs. \<exists>s1 s2.
      run cfg (take k xs) st = Some s1 \<and> step cfg (xs ! k) s1 = Some s2 \<and>
      Suc (counter s1) = totalTasks st \<and> counter s2 = totalTasks st \<and>
      replies st' = [replyErr (errOf (xs ! k))]"
proof (induction xs arbitrary: st)
  case Nil
  then show ?case by simp
next
  case (Cons x xs)
  from Cons.prems(1) obtain st1 where s: "step cfg x st = Some st1"
    and r: "run cfg xs st1 = Some st'"
    by (rule run_Cons_Some)
  have ro1: "repliedOnce st1" using s Cons.prems(2) by (rule step_repliedOnce)
  have tt: "totalTasks st1 = totalTasks st" using s by (rule step_totalTasks)
  show ?case
  proof (cases "replies st1 = []")
    case True
    from Cons.IH[OF r ro1 True Cons.prems(4)] obtain k s1 s2 where
      k: "k < length xs" and a: "run cfg (take k xs) st1 = Some s1"
      and b: "step cfg (xs ! k) s1 = Some s2"
      and c: "Suc (counter s1) = totalTasks st1" "counter s2 = totalTasks st1"
      and d: "replies st' = [replyErr (errOf (xs ! k))]"
      by blast
    have "run cfg (take (Suc k) (x # xs)) st = Some s1" using s a by simp
    with k b c d tt show ?thesis
      by (intro exI[of _ "Suc k"]) auto
  next
    case False
    with step_replies[OF s] Cons.prems(3)
    have hit: "settles (snd (pending st ! fst x)) (errOf x)" "Suc (counter st) = totalTasks st"
      and rep: "replies st1 = [replyErr (errOf x)]"
      by (auto split: if_splits)
    from step_counter[OF s] hit have c1: "counter st1 = totalTasks st" by simp
    with tt have "totalTasks st1 \<le> counter st1" by simp
    from run_replies_stable[OF r this] rep have "replies st' = [replyErr (errOf x)]" by simp
    with s hit c1 show ?thesis
      by (intro exI[of _ 0]) auto
  qed
qed

lemma both_last:
  assumes r: "run cfg xs st0 = Some st" and both: "SHOULD_STORE cfg = BOTH"
    and fin: "pending st = []" and ro: "repliedOnce st0"
    and inv: "counter st0 + length (pending st0) = totalTasks st0"
    and ne: "pending st0 \<noteq> []"
  shows "xs \<noteq> [] \<and> replies st = [replyErr (errOf (last xs))]"
proof -
  have xs: "xs \<noteq> []" using r fin ne by (cases xs) auto
  then have split: "xs = butlast xs @ [last xs]" by simp
  from r split have "run cfg (butlast xs @ [last xs]) st0 = Some st" by simp
  then obtain s1 where r1: "run cfg (butlast xs) st0 = Some s1"
    and s: "step cfg (last xs) s1 = Some st"
    by (auto simp: run_snoc split: option.splits)
  have tt: "totalTasks s1 = totalTasks st0" using r1 by (rule run_totalTasks)
  have i1: "counter s1 + length (pending s1) = totalTasks st0"
    using run_both[OF r1 both] inv by simp
  from s have "pending s1 \<noteq> []" by (elim step_Some) auto
  with i1 have lt: "counter s1 < totalTasks st0" by (cases "pending s1") auto
  from step_both[OF s both] fin i1 have c: "counter st = totalTasks st0" by simp
  with step_counter[OF s] lt
  have hit: "settles (snd (pending s1 ! fst (last xs))) (errOf (last xs))"
    and suc: "Suc (counter s1) = totalTasks st0"
    by (auto split: if_splits)
  have "repliedOnce s1" using r1 ro by (rule run_repliedOnce)
  with lt tt have "replies s1 = []" by (simp add: repliedOnce_def)
  with step_replies[OF s] hit suc tt have "replies st = [replyErr (errOf (last xs))]" by simp
  with xs show ?thesis by simp
qed

lemma settled_one_reply:
  assumes n: "getTotalAttributes cfg crs = Inr n" "0 < n"
    and p: "processAttributes cfg t req crs = Inr st0"
    and r: "run cfg sched st0 = Some st"
  shows "totalTasks st = totalTasksOf cfg n" and "repliedOnce st"
    and "pending st = [] \<Longrightarrow> length (replies st) = 1"
proof -
  from processAttributes_start[OF n, of t req] p
  have st0: "st0 = \<lparr> counter = 0, totalTasks = totalTasksOf cfg n, replies = [],
                      pending = concat (map (subtasksOf t req) (retainedAttributes cfg crs)) \<rparr>"
    by simp
  from n(2) have pos: "0 < totalTasksOf cfg n" by (simp add: totalTasksOf_def)
  from run_totalTasks[OF r] st0 show tt: "totalTasks st = totalTasksOf cfg n" by simp
  from pos st0 have "repliedOnce st0" by (simp add: repliedOnce_def)
  with r show ro: "repliedOnce st" by (rule run_repliedOnce)
  assume fin: "pending st = []"
  from getTotalAttributes_retained[OF n(1)] st0
  have "owed cfg (pending st0) = totalTasksOf cfg n" by (simp add: owed_subtasks)
  with run_owed[OF r] st0 fin have "totalTasksOf cfg n \<le> counter st" by (simp add: owed_def)
  with ro tt show "length (replies st) = 1" by (simp add: repliedOnce_def)
qed

section \<open>The store mode and the attribute test\<close>

lemma valueIsSkipped_mode:
  "valueIsSkipped (cfg\<lparr>SHOULD_STORE := m\<rparr>) v = valueIsSkipped cfg v"
  by (simp add: valueIsSkipped_def)

lemma retainedOf_mode: "retainedOf (cfg\<lparr>SHOULD_STORE := m\<rparr>) = retainedOf cfg"
  by (rule ext) (simp add: retainedOf_def valueIsSkipped_mode)

lemma retainedAttributes_mode:
  "retainedAttributes (cfg\<lparr>SHOULD_STORE := m\<rparr>) crs = retainedAttributes cfg crs"
  unfolding retainedAttributes_def retainedOf_mode ..

lemma countAttributes_mode:
  "countAttributes (cfg\<lparr>SHOULD_STORE := m\<rparr>) as n = countAttributes cfg as n"
  by (induction as arbitrary: n) (simp_all add: valueIsSkipped_mode split: sum.splits)

lemma countResponses_mode:
  "countResponses (cfg\<lparr>SHOULD_STORE := m\<rparr>) crs n = countResponses cfg crs n"
  by (induction crs arbitrary: n)
     (simp_all add: countAttributes_mode split: sum.splits jsval.splits)

lemma getTotalAttributes_mode:
  "getTotalAttributes (cfg\<lparr>SHOULD_STORE := m\<rparr>) crs = getTotalAttributes cfg crs"
  by (simp add: getTotalAttributes_def countResponses_mode)

lemma array_member_truthy: "getProp v k = JArray xs \<Longrightarrow> truthy v"
  by (cases v) (simp_all add: getProp_def)

text \<open>What the test of the two loops lets through.\<close>

lemma valueIsSkipped_iff:
  "\<not> valueIsSkipped cfg v \<longleftrightarrow>
     (\<exists>s. v = JString s \<and> s \<noteq> [] \<and> (IGNORE_BLANK_SPACES cfg \<longrightarrow> trim s \<noteq> [])) \<or>
     (\<exists>x. v = JNumber x \<and> x \<noteq> Num 0 \<and> x \<noteq> NaN)"
  by (cases v) (auto simp: valueIsSkipped_def)

section \<open>The example notification\<close>

lemmas example_defs =
  exampleAttribute_def exampleElement_def exampleResponses_def
  exampleNotification_def exampleRequest_def emptyQuery_def exampleRoom_def examplePost_def

lemmas ingest_defs =
  notifyHandler_def processAttributes_def getTotalAttributes_def getProp_def
  valueIsSkipped_def trim_def isWhiteSpace_def totalTasksOf_def

lemma exampleConfig_simps:
  "SHOULD_STORE (exampleConfig m) = m"
  "IGNORE_BLANK_SPACES (exampleConfig m) = True"
  "UNICA_CORRELATOR_HEADER (exampleConfig m) = ''unica-correlator''"
  by (simp_all add: exampleConfig_def)

lemma example_total: "getTotalAttributes (exampleConfig m) exampleRoom = Inr 1"
  by (simp add: example_defs ingest_defs exampleConfig_simps)

lemma example_retained:
  "retainedAttributes (exampleConfig m) exampleRoom =
     [(exampleElement [exampleAttribute (JString ''21.5'')], exampleAttribute (JString ''21.5''))]"
  by (simp add: retainedAttributes_def retainedOf_def example_defs ingest_defs
        exampleConfig_simps)

lemma example_subtasks:
  "concat (map (subtasksOf 0 examplePost) (retainedAttributes (exampleConfig m) exampleRoom)) =
     [storeRawData exampleData, storeAggregatedData exampleData]"
  by (simp add: example_retained subtasksOf_def Let_def exampleData_def)

lemma example_start:
  "processAttributes (exampleConfig BOTH) 0 examplePost exampleRoom =
   Inr \<lparr> counter = 0, totalTasks = 2, replies = [],
         pending = [storeRawData exampleData, storeAggregatedData exampleData] \<rparr>"
  using processAttributes_start[OF example_total, of BOTH 0 examplePost]
  by (simp add: example_subtasks totalTasksOf_def exampleConfig_simps)

lemma example_handler:
  "notifyHandler (exampleConfig BOTH) 0 examplePost =
     processAttributes (exampleConfig BOTH) 0 examplePost exampleRoom"
  by (simp add: notifyHandler_def examplePost_def exampleRequest_def getProp_def)

lemma example_run:
  "run (exampleConfig BOTH) exampleSchedule
     \<lparr> counter = 0, totalTasks = 2, replies = [],
       pending = [storeRawData exampleData, storeAggregatedData exampleData] \<rparr> =
   Some \<lparr> counter = 2, totalTasks = 2, replies = [NoContent],
          pending = [] \<rparr>"
  by (simp add: exampleSchedule_def step_def storeRawData_def storeAggregatedData_def
        countAndReply_def exampleConfig_simps)

section \<open>Claims about notifications\<close>

text \<open>
  Claim C3. For a notification with at least one retained attribute, \<open>n\<close> of them, and
  any schedule of callbacks after \<^verbatim>\<open>processAttributes\<close>: the total is \<open>2 * n\<close> under
  BOTH and \<open>n\<close> otherwise; at every moment one reply has been sent if the counter has
  reached the total and none otherwise, so that no second reply is ever sent; once
  nothing is pending exactly one reply has been sent; and any further callback adds one
  to the counter exactly when it settles its subtask (a failed \<^verbatim>\<open>getCollection\<close> or a
  finished write, with or without error) and replies exactly when that brings the
  counter to the total.
\<close>

theorem single_reply:
  assumes "getTotalAttributes cfg crs = Inr n" and "0 < n"
    and "processAttributes cfg t req crs = Inr st0"
    and "run cfg sched st0 = Some st"
  shows "n = length (retainedAttributes cfg crs) \<and>
         totalTasks st = (if SHOULD_STORE cfg = BOTH then 2 * n else n) \<and>
         length (replies st) = (if totalTasks st \<le> counter st then 1 else 0) \<and>
         (pending st = [] \<longrightarrow> length (replies st) = 1) \<and>
         (\<forall>x st'. step cfg x st = Some st' \<longrightarrow>
            counter st' =
              (if settles (snd (pending st ! fst x)) (errOf x)
               then Suc (counter st) else counter st) \<and>
            replies st' =
              (if settles (snd (pending st ! fst x)) (errOf x) \<and>
                  Suc (counter st) = totalTasks st
               then replies st @ [replyErr (errOf x)] else replies st))"
proof -
  note s = settled_one_reply[OF assms]
  have "n = length (retainedAttributes cfg crs)"
    using assms(1) by (rule getTotalAttributes_retained)
  moreover have "totalTasks st = (if SHOULD_STORE cfg = BOTH then 2 * n else n)"
    using s(1) by (simp add: totalTasksOf_def)
  moreover have "length (replies st) = (if totalTasks st \<le> counter st then 1 else 0)"
    using s(2) by (simp add: repliedOnce_def)
  moreover have "pending st = [] \<longrightarrow> length (replies st) = 1"
    using s(3) by blast
  moreover have "\<forall>x st'. step cfg x st = Some st' \<longrightarrow>
            counter st' =
              (if settles (snd (pending st ! fst x)) (errOf x)
               then Suc (counter st) else counter st) \<and>
            replies st' =
              (if settles (snd (pending st ! fst x)) (errOf x) \<and>
                  Suc (counter st) = totalTasks st
               then replies st @ [replyErr (errOf x)] else replies st)"
    using step_counter step_replies by blast
  ultimately show ?thesis by blast
qed

theorem single_reply_witness:
  "getTotalAttributes (exampleConfig BOTH) exampleRoom = Inr 1 \<and>
   processAttributes (exampleConfig BOTH) 0 examplePost exampleRoom =
     Inr \<lparr> counter = 0, totalTasks = 2, replies = [],
           pending = [storeRawData exampleData, storeAggregatedData exampleData] \<rparr> \<and>
   run (exampleConfig BOTH) exampleSchedule
     \<lparr> counter = 0, totalTasks = 2, replies = [],
       pending = [storeRawData exampleData, storeAggregatedData exampleData] \<rparr> =
     Some \<lparr> counter = 2, totalTasks = 2, replies = [NoContent], pending = [] \<rparr> \<and>
   length (replies \<lparr> counter = 2, totalTasks = 2, replies = [NoContent], pending = [] \<rparr>) = 1"
proof -
  have pos: "(0::nat) < 1" by simp
  from single_reply[OF example_total pos example_start example_run]
  have "length (replies \<lparr> counter = 2, totalTasks = 2, replies = [NoContent],
                          pending = [] \<rparr>) = 1"
    by simp
  with example_total example_start example_run show ?thesis by simp
qed

text \<open>
  Claim C1, as stated, fails: under BOTH the raw \<^verbatim>\<open>getCollection\<close> of the example fails
  first with the error \<^verbatim>\<open>down\<close>, the aggregated subtask then succeeds, everything has
  settled, and the one reply is the success reply, not the first error.
\<close>

theorem first_error_not_reported:
  "errOf (hd exampleSchedule) = Some ''down'' \<and>
   map_option pending (notify (exampleConfig BOTH) 0 examplePost exampleSchedule) = Some [] \<and>
   map_option replies (notify (exampleConfig BOTH) 0 examplePost exampleSchedule) =
     Some [NoContent] \<and>
   NoContent \<noteq> replyErr (Some ''down'')"
  by (simp add: notify_def example_handler example_start example_run)
     (simp add: exampleSchedule_def errOf_def)

text \<open>
  Claim C1, amended. Once nothing is pending, the one reply carries the result of the
  callback that brought the counter to the total: its error if it has one, success
  otherwise. Under BOTH that is the last callback of the schedule. If no callback was
  given an error, the reply is success.
\<close>

theorem reply_of_completing_callback:
  assumes "getTotalAttributes cfg crs = Inr n" and "0 < n"
    and "processAttributes cfg t req crs = Inr st0"
    and "run cfg sched st0 = Some st"
    and "pending st = []"
  shows "(\<exists>k<length sched. \<exists>s1 s2.
            run cfg (take k sched) st0 = Some s1 \<and> step cfg (sched ! k) s1 = Some s2 \<and>
            Suc (counter s1) = totalTasks st \<and> counter s2 = totalTasks st \<and>
            replies st = [replyErr (errOf (sched ! k))]) \<and>
         (SHOULD_STORE cfg = BOTH \<longrightarrow>
            sched \<noteq> [] \<and> replies st = [replyErr (errOf (last sched))]) \<and>
         ((\<forall>x\<in>set sched. errOf x = None) \<longrightarrow> replies st = [NoContent])"
proof -
  from processAttributes_start[OF assms(1,2), of t req] assms(3)
  have st0: "st0 = \<lparr> counter = 0, totalTasks = totalTasksOf cfg n, replies = [],
                      pending = concat (map (subtasksOf t req) (retainedAttributes cfg crs)) \<rparr>"
    by simp
  from assms(2) have pos: "0 < totalTasksOf cfg n" by (simp add: totalTasksOf_def)
  have ro0: "repliedOnce st0" using pos st0 by (simp add: repliedOnce_def)
  have tt: "totalTasks st = totalTasks st0" using assms(4) by (rule run_totalTasks)
  have one: "length (replies st) = 1"
    using settled_one_reply(3)[OF assms(1,2,3,4,5)] .
  then have ne: "replies st \<noteq> []" by auto
  from st0 have e0: "replies st0 = []" by simp
  from reply_source[OF assms(4) ro0 e0 ne] tt
  have first: "\<exists>k<length sched. \<exists>s1 s2.
            run cfg (take k sched) st0 = Some s1 \<and> step cfg (sched ! k) s1 = Some s2 \<and>
            Suc (counter s1) = totalTasks st \<and> counter s2 = totalTasks st \<and>
            replies st = [replyErr (errOf (sched ! k))]"
    by simp
  have second: "SHOULD_STORE cfg = BOTH \<longrightarrow>
            sched \<noteq> [] \<and> replies st = [replyErr (errOf (last sched))]"
  proof
    assume both: "SHOULD_STORE cfg = BOTH"
    from getTotalAttributes_retained[OF assms(1)] both st0
    have inv: "counter st0 + length (pending st0) = totalTasks st0"
      by (simp add: length_subtasks totalTasksOf_def)
    from inv pos st0 have "0 < length (pending st0)" by simp
    then have "pending st0 \<noteq> []" by auto
    from both_last[OF assms(4) both assms(5) ro0 inv this]
    show "sched \<noteq> [] \<and> replies st = [replyErr (errOf (last sched))]" .
  qed
  have third: "(\<forall>x\<in>set sched. errOf x = None) \<longrightarrow> replies st = [NoContent]"
  proof
    assume all: "\<forall>x\<in>set sched. errOf x = None"
    from first obtain k where "k < length sched"
      and "replies st = [replyErr (errOf (sched ! k))]"
      by blast
    with all show "replies st = [NoContent]" by simp
  qed
  from first second third show ?thesis by blast
qed

theorem reply_of_completing_callback_witness:
  "getTotalAttributes (exampleConfig BOTH) exampleRoom = Inr 1 \<and>
   processAttributes (exampleConfig BOTH) 0 examplePost exampleRoom =
     Inr \<lparr> counter = 0, totalTasks = 2, replies = [],
           pending = [storeRawData exampleData, storeAggregatedData exampleData] \<rparr> \<and>
   run (exampleConfig BOTH) exampleSchedule
     \<lparr> counter = 0, totalTasks = 2, replies = [],
       pending = [storeRawData exampleData, storeAggregatedData exampleData] \<rparr> =
     Some \<lparr> counter = 2, totalTasks = 2, replies = [NoContent], pending = [] \<rparr> \<and>
   [NoContent] = [replyErr (errOf (last exampleSchedule))]"
proof -
  have pos: "(0::nat) < 1" by simp
  have fin: "pending \<lparr> counter = 2, totalTasks = 2, replies = [NoContent],
                        pending = [] \<rparr> = []"
    by simp
  from reply_of_completing_callback[OF example_total pos example_start example_run fin]
  have "[NoContent] = [replyErr (errOf (last exampleSchedule))]"
    by (simp add: exampleConfig_simps)
  with example_total example_start example_run show ?thesis by simp
qed

text \<open>
  Claim C10. For every retained attribute \<^verbatim>\<open>processAttributes\<close> calls \<^verbatim>\<open>getCollection\<close>
  twice, for the raw and for the aggregated collection, each time with
  \<^verbatim>\<open>shouldCreate\<close>, \<^verbatim>\<open>shouldStoreHash\<close> and \<^verbatim>\<open>shouldTruncate\<close> set, and it does so under
  every store mode \<open>m\<close>. The store mode is read only in the callback of
  \<^verbatim>\<open>getCollection\<close>, where it decides whether the write is issued.
\<close>

theorem collections_requested_in_every_mode:
  assumes "getTotalAttributes cfg crs = Inr n" and "0 < n"
  shows "(\<forall>m. \<exists>st0. processAttributes (cfg\<lparr>SHOULD_STORE := m\<rparr>) t req crs = Inr st0 \<and>
            pending st0 = concat (map (subtasksOf t req) (retainedAttributes cfg crs))) \<and>
         (\<forall>ce a. subtasksOf t req (ce, a) =
            [(GetCollection
                (namespaceOf \<lparr> d_request = req, contextElement = ce, attribute = a,
                               recvTime = t \<rparr>)
                \<lparr> isAggregated = False, shouldCreate = True, shouldStoreHash = True,
                  shouldTruncate = True \<rparr>,
              RawCollectionCb \<lparr> d_request = req, contextElement = ce, attribute = a,
                                recvTime = t \<rparr>),
             (GetCollection
                (namespaceOf \<lparr> d_request = req, contextElement = ce, attribute = a,
                               recvTime = t \<rparr>)
                \<lparr> isAggregated = True, shouldCreate = True, shouldStoreHash = True,
                  shouldTruncate = True \<rparr>,
              AggrCollectionCb \<lparr> d_request = req, contextElement = ce, attribute = a,
                                 recvTime = t \<rparr>)]) \<and>
         (\<forall>d coll st. callback cfg (RawCollectionCb d) None coll st =
            (if SHOULD_STORE cfg = ONLY_RAW \<or> SHOULD_STORE cfg = BOTH
             then st\<lparr> pending := pending st @ [(StoreRawData (storeParams d coll), RawStoreCb)] \<rparr>
             else st)) \<and>
         (\<forall>d coll st. callback cfg (AggrCollectionCb d) None coll st =
            (if SHOULD_STORE cfg = ONLY_AGGREGATED \<or> SHOULD_STORE cfg = BOTH
             then st\<lparr> pending :=
                    pending st @ [(StoreAggregatedData (storeParams d coll), AggrStoreCb)] \<rparr>
             else st))"
proof -
  have "\<exists>st0. processAttributes (cfg\<lparr>SHOULD_STORE := m\<rparr>) t req crs = Inr st0 \<and>
          pending st0 = concat (map (subtasksOf t req) (retainedAttributes cfg crs))" for m
  proof -
    from assms(1) have "getTotalAttributes (cfg\<lparr>SHOULD_STORE := m\<rparr>) crs = Inr n"
      by (simp add: getTotalAttributes_mode)
    from processAttributes_start[OF this assms(2), of t req] show ?thesis
      by (simp add: retainedAttributes_mode)
  qed
  then show ?thesis
    by (simp add: subtasksOf_def Let_def storeRawData_def storeAggregatedData_def)
qed

theorem collections_requested_in_every_mode_witness:
  "getTotalAttributes (exampleConfig BOTH) exampleRoom = Inr 1 \<and>
   (\<exists>st0. processAttributes (exampleConfig BOTH\<lparr>SHOULD_STORE := ONLY_RAW\<rparr>) 0 examplePost
            exampleRoom = Inr st0 \<and>
          pending st0 = [storeRawData exampleData, storeAggregatedData exampleData]) \<and>
   fst (storeAggregatedData exampleData) =
     GetCollection (namespaceOf exampleData)
       \<lparr> isAggregated = True, shouldCreate = True, shouldStoreHash = True,
         shouldTruncate = True \<rparr>"
proof -
  have pos: "(0::nat) < 1" by simp
  from collections_requested_in_every_mode[OF example_total pos, of BOTH 0 examplePost]
  have "\<exists>st0. processAttributes (exampleConfig BOTH\<lparr>SHOULD_STORE := ONLY_RAW\<rparr>) 0 examplePost
            exampleRoom = Inr st0 \<and>
          pending st0 =
            concat (map (subtasksOf 0 examplePost)
              (retainedAttributes (exampleConfig BOTH) exampleRoom))"
    by blast
  then show ?thesis
    by (simp add: example_total example_subtasks storeAggregatedData_def)
qed

text \<open>
  Claim C5. When the handler finds \<^verbatim>\<open>contextResponses\<close> to be an array and no attribute
  of it is retained, it replies with the 400 error whose validation body has the source
  \<^verbatim>\<open>payload\<close> and the keys \<^verbatim>\<open>["attributes"]\<close>; no call of the database is issued, so that
  no callback can run afterwards.
\<close>

theorem no_retained_attribute_rejected:
  assumes "getProp (payload req) ''contextResponses'' = JArray crs"
    and "getTotalAttributes cfg crs = Inr 0"
  shows "notifyHandler cfg t req =
           Inr \<lparr> counter = 0, totalTasks = 0, replies = [attributesError], pending = [] \<rparr> \<and>
         statusCode attributesError = 400 \<and>
         validationOf attributesError = Some \<lparr> source = ''payload'', keys = [''attributes''] \<rparr> \<and>
         (\<forall>sched st. notify cfg t req sched = Some st \<longrightarrow>
            sched = [] \<and> replies st = [attributesError] \<and> pending st = [])"
proof -
  from assms(1) have "truthy (payload req)" by (rule array_member_truthy)
  with assms have h: "notifyHandler cfg t req =
      Inr \<lparr> counter = 0, totalTasks = 0, replies = [attributesError], pending = [] \<rparr>"
    by (simp add: notifyHandler_def processAttributes_def totalTasksOf_def)
  have "sched = [] \<and> replies st = [attributesError] \<and> pending st = []"
    if "notify cfg t req sched = Some st" for sched st
    using that h by (cases sched) (auto simp: notify_def step_def split: option.splits)
  with h show ?thesis by (simp add: attributesError_def)
qed

theorem no_retained_attribute_rejected_witness:
  "getProp (payload (exampleRequest emptyQuery (exampleNotification [exampleAttribute (JBool True)])))
     ''contextResponses'' = JArray (exampleResponses [exampleAttribute (JBool True)]) \<and>
   getTotalAttributes (exampleConfig BOTH) (exampleResponses [exampleAttribute (JBool True)]) =
     Inr 0 \<and>
   notifyHandler (exampleConfig BOTH) 0
     (exampleRequest emptyQuery (exampleNotification [exampleAttribute (JBool True)])) =
     Inr \<lparr> counter = 0, totalTasks = 0, replies = [attributesError], pending = [] \<rparr>"
proof -
  have a: "getProp
      (payload (exampleRequest emptyQuery (exampleNotification [exampleAttribute (JBool True)])))
      ''contextResponses'' = JArray (exampleResponses [exampleAttribute (JBool True)])"
    by (simp add: exampleRequest_def exampleNotification_def getProp_def)
  have b: "getTotalAttributes (exampleConfig BOTH)
      (exampleResponses [exampleAttribute (JBool True)]) = Inr 0"
    by (simp add: example_defs ingest_defs)
  from no_retained_attribute_rejected[OF a b, of 0] a b show ?thesis by simp
qed

text \<open>
  Claim C4 at the number zero. The value is a number, yet the test \<^verbatim>\<open>!attributes[j].value\<close>
  skips it under every configuration: a notification whose only attribute has the value
  \<^verbatim>\<open>0\<close> is answered with the 400 error for a notification without attributes and
  nothing is stored. The empty string is skipped in the same way, also where
  \<^verbatim>\<open>IGNORE_BLANK_SPACES\<close> is off.
\<close>

theorem zero_value_not_retained:
  "typeof (JNumber (Num 0)) = TNumber \<and>
   valueIsSkipped cfg (JNumber (Num 0)) \<and>
   valueIsSkipped (cfg\<lparr>IGNORE_BLANK_SPACES := False\<rparr>) (JString []) \<and>
   notifyHandler cfg t
     (exampleRequest emptyQuery (exampleNotification [exampleAttribute (JNumber (Num 0))])) =
     Inr \<lparr> counter = 0, totalTasks = 0, replies = [attributesError], pending = [] \<rparr>"
  by (simp add: example_defs ingest_defs)

theorem zero_value_not_retained_witness:
  "valueIsSkipped (exampleConfig BOTH) (JNumber (Num 0)) \<and>
   notifyHandler (exampleConfig BOTH) 0
     (exampleRequest emptyQuery (exampleNotification [exampleAttribute (JNumber (Num 0))])) =
     Inr \<lparr> counter = 0, totalTasks = 0, replies = [attributesError], pending = [] \<rparr>"
  using zero_value_not_retained[of "exampleConfig BOTH" 0] by simp

text \<open>
  Claim C7 on the code. Where the payload is falsy, or has no \<^verbatim>\<open>contextResponses\<close>, or
  that member is not an array, the handler does nothing: it issues no call and never
  calls \<^verbatim>\<open>reply\<close>, so no 400 is sent.
\<close>

theorem malformed_notification_gets_no_reply:
  assumes "\<not> truthy (payload req) \<or> (\<forall>crs. getProp (payload req) ''contextResponses'' \<noteq> JArray crs)"
  shows "notifyHandler cfg t req = Inr nothingDone \<and>
         replies nothingDone = [] \<and> pending nothingDone = []"
  using assms by (auto simp: notifyHandler_def nothingDone_def split: jsval.splits)

theorem malformed_notification_gets_no_reply_witness:
  "getProp (payload (exampleRequest emptyQuery (JObject []))) ''contextResponses'' = JUndefined \<and>
   notifyHandler (exampleConfig BOTH) 0 (exampleRequest emptyQuery (JObject [])) =
     Inr nothingDone \<and>
   replies nothingDone = []"
proof -
  have a: "getProp (payload (exampleRequest emptyQuery (JObject []))) ''contextResponses'' =
           JUndefined"
    by (simp add: exampleRequest_def getProp_def)
  then have "\<not> truthy (payload (exampleRequest emptyQuery (JObject []))) \<or>
    (\<forall>crs. getProp (payload (exampleRequest emptyQuery (JObject []))) ''contextResponses'' \<noteq>
       JArray crs)"
    by simp
  from malformed_notification_gets_no_reply[OF this, of "exampleConfig BOTH" 0] a
  show ?thesis by simp
qed

section \<open>Claims about queries\<close>

lemma toLowerCase_CSV: "toLowerCase ''CSV'' = ''csv''"
  by (simp add: toLowerCase_def lowerChar_def)

lemma csvQuery_route: "getDataRoute csvQuery = RawData"
  by (simp add: getDataRoute_def csvQuery_def emptyQuery_def stringGiven_def toLowerCase_CSV)

lemma lastQuery_route: "getDataRoute lastQuery = RawData"
  by (simp add: getDataRoute_def lastQuery_def emptyQuery_def numberGiven_def)

text \<open>
  Claim C2, as stated, fails: a query whose only parameter is \<^verbatim>\<open>filetype=CSV\<close> passes the
  schema, has none of \<^verbatim>\<open>lastN\<close>, \<^verbatim>\<open>hLimit\<close>, \<^verbatim>\<open>hOffset\<close>, \<^verbatim>\<open>aggrMethod\<close>, \<^verbatim>\<open>aggrPeriod\<close>, and
  its \<^verbatim>\<open>filetype\<close> is not equal to \<^verbatim>\<open>csv\<close>; the rule of the claim gives the validation
  error, the handler takes the raw path.
\<close>

theorem uppercase_csv_takes_raw_path:
  "joiQueryValid csvQuery \<and>
   lastN csvQuery = None \<and> hLimit csvQuery = None \<and> hOffset csvQuery = None \<and>
   aggrMethod csvQuery = None \<and> aggrPeriod csvQuery = None \<and>
   filetype csvQuery \<noteq> Some ''csv'' \<and>
   getDataRoute csvQuery = RawData"
  by (simp add: csvQuery_route) (simp add: csvQuery_def emptyQuery_def joiQueryValid_def)

text \<open>
  Claim C2, amended: \<^verbatim>\<open>filetype\<close> is compared with \<^verbatim>\<open>csv\<close> after \<^verbatim>\<open>toLowerCase\<close>. For a
  query that has passed the schema the first matching rule decides: the raw path if
  \<^verbatim>\<open>lastN\<close> is present, or \<^verbatim>\<open>hLimit\<close> and \<^verbatim>\<open>hOffset\<close> both are, or \<^verbatim>\<open>filetype\<close> is \<^verbatim>\<open>csv\<close> in
  any letter case; else the aggregated path if \<^verbatim>\<open>aggrMethod\<close> and \<^verbatim>\<open>aggrPeriod\<close> both are
  present; else the error. The handler then runs exactly the function of that branch;
  the error is the 400 reply with the source \<^verbatim>\<open>query\<close> and the six keys.
\<close>

theorem query_dispatch:
  assumes "joiQueryValid (query req)"
  shows "getDataRoute (query req) =
           (if lastN (query req) \<noteq> None \<or>
               (hLimit (query req) \<noteq> None \<and> hOffset (query req) \<noteq> None) \<or>
               (case filetype (query req) of None \<Rightarrow> False | Some f \<Rightarrow> toLowerCase f = ''csv'')
            then RawData
            else if aggrMethod (query req) \<noteq> None \<and> aggrPeriod (query req) \<noteq> None
            then AggregatedData
            else QueryError) \<and>
         getDataHandler cfg req db =
           (case getDataRoute (query req) of
              RawData \<Rightarrow>
                getRawData req (headers req (UNICA_CORRELATOR_HEADER cfg)) (collectionAnswer db)
                  (rawAnswer db)
            | AggregatedData \<Rightarrow>
                getAggregatedData req (headers req (UNICA_CORRELATOR_HEADER cfg))
                  (collectionAnswer db) (aggregatedAnswer db)
            | QueryError \<Rightarrow> \<lparr> body = queryError, responseHeaders = [] \<rparr>) \<and>
         statusCode queryError = 400 \<and>
         validationOf queryError =
           Some \<lparr> source = ''query'',
                  keys = [''lastN'', ''hLimit'', ''hOffset'', ''filetype'', ''aggrMethod'',
                          ''aggrPeriod''] \<rparr>"
proof -
  have "getDataRoute (query req) =
           (if lastN (query req) \<noteq> None \<or>
               (hLimit (query req) \<noteq> None \<and> hOffset (query req) \<noteq> None) \<or>
               (case filetype (query req) of None \<Rightarrow> False | Some f \<Rightarrow> toLowerCase f = ''csv'')
            then RawData
            else if aggrMethod (query req) \<noteq> None \<and> aggrPeriod (query req) \<noteq> None
            then AggregatedData
            else QueryError)"
    using assms
    by (auto simp: joiQueryValid_def getDataRoute_def numberGiven_def stringGiven_def
             split: option.splits)
  then show ?thesis
    by (simp add: getDataHandler_def Let_def queryError_def)
qed

theorem query_dispatch_witness:
  "joiQueryValid (query (exampleRequest csvQuery JNull)) \<and>
   getDataRoute (query (exampleRequest csvQuery JNull)) = RawData \<and>
   getDataHandler (exampleConfig BOTH) (exampleRequest csvQuery JNull) noCollection =
     getRawData (exampleRequest csvQuery JNull) (Some ''abc'') (Some ''no collection'', 0)
       (None, NoResult)"
proof -
  have v: "joiQueryValid (query (exampleRequest csvQuery JNull))"
    by (simp add: exampleRequest_def csvQuery_def emptyQuery_def joiQueryValid_def)
  have r: "getDataRoute (query (exampleRequest csvQuery JNull)) = RawData"
    by (simp add: exampleRequest_def csvQuery_route)
  from query_dispatch[OF v, of "exampleConfig BOTH" noCollection] r
  have "getDataHandler (exampleConfig BOTH) (exampleRequest csvQuery JNull) noCollection =
     getRawData (exampleRequest csvQuery JNull)
       (headers (exampleRequest csvQuery JNull) (UNICA_CORRELATOR_HEADER (exampleConfig BOTH)))
       (collectionAnswer noCollection) (rawAnswer noCollection)"
    by simp
  with v r show ?thesis
    by (simp add: exampleConfig_simps noCollection_def) (simp add: exampleRequest_def)
qed

text \<open>
  Claim C6. When \<^verbatim>\<open>getCollection\<close> answers a raw or an aggregated query with an error
  (the collection does not exist), the reply is the response envelope with the values
  \<^verbatim>\<open>[]\<close>, and its status is 200.
\<close>

theorem absent_collection_answered_empty:
  assumes "fst (collectionAnswer db) = Some e" and "getDataRoute (query req) \<noteq> QueryError"
  shows "body (getDataHandler cfg req db) =
           Payload
             (JObject
                [(''contextResponses'',
                  JArray
                    [JObject
                       [(''contextElement'',
                         JObject
                           [(''id'', JString (entityId (params req))),
                            (''type'', JString (entityType (params req))),
                            (''isPattern'', JBool False),
                            (''attributes'',
                             JArray
                               [JObject
                                  [(''name'', JString (attrName (params req))),
                                   (''values'', JArray [])]])]),
                        (''statusCode'',
                         JObject
                           [(''code'', JString ''200''), (''reasonPhrase'', JString ''OK'')])]])]) \<and>
         statusCode (body (getDataHandler cfg req db)) = 200"
  using assms
  by (cases "getDataRoute (query req)")
     (simp_all add: getDataHandler_def Let_def getRawData_def getAggregatedData_def
        emptyPayload_def getNGSIPayload_def getEmptyResponse_def)

theorem absent_collection_answered_empty_witness:
  "fst (collectionAnswer noCollection) = Some ''no collection'' \<and>
   getDataRoute (query (exampleRequest lastQuery JNull)) = RawData \<and>
   statusCode (body (getDataHandler (exampleConfig BOTH) (exampleRequest lastQuery JNull)
     noCollection)) = 200"
proof -
  have a: "fst (collectionAnswer noCollection) = Some ''no collection''"
    by (simp add: noCollection_def)
  have r: "getDataRoute (query (exampleRequest lastQuery JNull)) = RawData"
    by (simp add: exampleRequest_def lastQuery_route)
  then have ne: "getDataRoute (query (exampleRequest lastQuery JNull)) \<noteq> QueryError" by simp
  from absent_collection_answered_empty[OF a ne, of "exampleConfig BOTH"] a r
  show ?thesis by simp
qed

text \<open>
  The sibling branches of the two query functions: once the collection has been found
  and the store has answered without an error, the reply (data, file, stream or empty
  result) gets the \<^verbatim>\<open>Unica-Correlator\<close> header of the request.
\<close>

lemma correlator_echoed_when_collection_found:
  assumes "fst (collectionAnswer db) = None" and "getDataRoute (query req) \<noteq> QueryError"
    and "fst (rawAnswer db) = None" and "fst (aggregatedAnswer db) = None"
    and "headers req (UNICA_CORRELATOR_HEADER cfg) = Some u" and "u \<noteq> []"
  shows "(''Unica-Correlator'', u) \<in> set (responseHeaders (getDataHandler cfg req db))"
  using assms
  by (cases "getDataRoute (query req)")
     (auto simp: getDataHandler_def Let_def getRawData_def getAggregatedData_def
        correlatorHeader_def split: option.splits raw_result.splits)

text \<open>
  Claim C8 on the code. In the branch for an absent collection the reply is made and no
  header is set on it: the response has no \<^verbatim>\<open>Unica-Correlator\<close> header, whatever the
  request carried.
\<close>

theorem absent_collection_drops_correlator:
  assumes "fst (collectionAnswer db) = Some e" and "getDataRoute (query req) \<noteq> QueryError"
  shows "responseHeaders (getDataHandler cfg req db) = []"
  using assms
  by (cases "getDataRoute (query req)")
     (simp_all add: getDataHandler_def Let_def getRawData_def getAggregatedData_def)

theorem absent_collection_drops_correlator_witness:
  "headers (exampleRequest lastQuery JNull) (UNICA_CORRELATOR_HEADER (exampleConfig BOTH)) =
     Some ''abc'' \<and>
   fst (collectionAnswer noCollection) = Some ''no collection'' \<and>
   getDataRoute (query (exampleRequest lastQuery JNull)) = RawData \<and>
   responseHeaders (getDataHandler (exampleConfig BOTH) (exampleRequest lastQuery JNull)
     noCollection) = []"
proof -
  have a: "fst (collectionAnswer noCollection) = Some ''no collection''"
    by (simp add: noCollection_def)
  have r: "getDataRoute (query (exampleRequest lastQuery JNull)) = RawData"
    by (simp add: exampleRequest_def lastQuery_route)
  then have ne: "getDataRoute (query (exampleRequest lastQuery JNull)) \<noteq> QueryError" by simp
  have h: "headers (exampleRequest lastQuery JNull)
             (UNICA_CORRELATOR_HEADER (exampleConfig BOTH)) = Some ''abc''"
    by (simp add: exampleRequest_def exampleConfig_simps)
  from absent_collection_drops_correlator[OF a ne, of "exampleConfig BOTH"] a r h
  show ?thesis by simp
qed

text \<open>
  Claim C9 on the code. The validator sends no response of its own. When the
  \<^verbatim>\<open>fiware-service\<close> header is missing it builds a 400 error whose validation body has the
  source \<^verbatim>\<open>headers\<close> and the keys \<^verbatim>\<open>["fiware-service"]\<close>, hands it to \<^verbatim>\<open>next\<close>, and then
  calls \<^verbatim>\<open>next\<close> a second time without an error; likewise with the keys
  \<^verbatim>\<open>["fiware-servicepath"]\<close> when that header is given and \<^verbatim>\<open>fiware-servicepath\<close> is missing.
  Only with both headers given is \<^verbatim>\<open>next\<close> called once. What the client receives is built by
  hapi from these calls and is not fixed by the validator.
\<close>

theorem missing_header_reported_then_passed:
  "(\<not> headerGiven (v ''fiware-service'') \<longrightarrow>
      map (map_option statusCode) (getHeadersValidator v) = [Some 400, None] \<and>
      map (map_option validationOf) (getHeadersValidator v) =
        [Some (Some \<lparr> source = ''headers'', keys = [''fiware-service''] \<rparr>), None]) \<and>
   (headerGiven (v ''fiware-service'') \<and> \<not> headerGiven (v ''fiware-servicepath'') \<longrightarrow>
      map (map_option statusCode) (getHeadersValidator v) = [Some 400, None] \<and>
      map (map_option validationOf) (getHeadersValidator v) =
        [Some (Some \<lparr> source = ''headers'', keys = [''fiware-servicepath''] \<rparr>), None]) \<and>
   (headerGiven (v ''fiware-service'') \<and> headerGiven (v ''fiware-servicepath'') \<longrightarrow>
      getHeadersValidator v = [None])"
  by (simp add: getHeadersValidator_def)

theorem missing_header_reported_then_passed_witness:
  "\<not> headerGiven (Map.empty ''fiware-service'') \<and>
   map (map_option validationOf) (getHeadersValidator Map.empty) =
     [Some (Some \<lparr> source = ''headers'', keys = [''fiware-service''] \<rparr>), None] \<and>
   headerGiven ([''fiware-service'' \<mapsto> ''orion''] ''fiware-service'') \<and>
   \<not> headerGiven ([''fiware-service'' \<mapsto> ''orion''] ''fiware-servicepath'') \<and>
   map (map_option validationOf) (getHeadersValidator [''fiware-service'' \<mapsto> ''orion'']) =
     [Some (Some \<lparr> source = ''headers'', keys = [''fiware-servicepath''] \<rparr>), None]"
proof -
  have a: "\<not> headerGiven (Map.empty ''fiware-service'')"
    by (simp add: headerGiven_def)
  have b: "headerGiven ([''fiware-service'' \<mapsto> ''orion''] ''fiware-service'')"
    by (simp add: headerGiven_def)
  have c: "\<not> headerGiven ([''fiware-service'' \<mapsto> ''orion''] ''fiware-servicepath'')"
    by (simp add: headerGiven_def)
  from missing_header_reported_then_passed[of Map.empty] a
  have d: "map (map_option validationOf) (getHeadersValidator Map.empty) =
     [Some (Some \<lparr> source = ''headers'', keys = [''fiware-service''] \<rparr>), None]"
    by blast
  from missing_header_reported_then_passed[of "[''fiware-service'' \<mapsto> ''orion'']"] b c
  have "map (map_option validationOf) (getHeadersValidator [''fiware-service'' \<mapsto> ''orion'']) =
     [Some (Some \<lparr> source = ''headers'', keys = [''fiware-servicepath''] \<rparr>), None]"
    by blast
  with a b c d show ?thesis by blast
qed

end
